theory Spec2Isabelle
  imports Complex_Main "HOL-Library.AList"
begin

section \<open>JavaScript values\<close>

text \<open>
  The values that flow through the settings client.  Primitives are modelled
  structurally.  Every non-primitive (array, plain object, function) is a reference
  \<open>JRef a\<close>: the client code never looks inside such a value, it only compares it
  with \<open>===\<close>, tests \<open>typeof\<close> on it and hands it to library functions.  What
  a reference points to is the business of the heap model further down.
  Numbers are the reals plus \<open>JNaN\<close>; infinities are not represented.
\<close>

datatype jsval =
    Undefined
  | Null
  | JBool bool
  | JNum real
  | JNaN
  | JStr string
  | JRef nat

text \<open>\<open>a === b\<close>: equality of primitives and identity of references; NaN differs from itself.\<close>

definition strict_eq :: "jsval \<Rightarrow> jsval \<Rightarrow> bool" where
  "strict_eq a b \<longleftrightarrow> a = b \<and> a \<noteq> JNaN"

text \<open>\<open>v == null\<close>: true for \<open>null\<close> and \<open>undefined\<close> only.\<close>

definition loose_null :: "jsval \<Rightarrow> bool" where
  "loose_null v \<longleftrightarrow> v = Undefined \<or> v = Null"

text \<open>\<open>Boolean(v)\<close>.\<close>

fun truthy :: "jsval \<Rightarrow> bool" where
  "truthy Undefined = False"
| "truthy Null = False"
| "truthy (JBool b) = b"
| "truthy (JNum r) = (r \<noteq> 0)"
| "truthy JNaN = False"
| "truthy (JStr s) = (s \<noteq> [])"
| "truthy (JRef a) = True"

text \<open>\<open>typeof v === 'string'\<close>.\<close>

fun is_string :: "jsval \<Rightarrow> bool" where
  "is_string (JStr s) = True"
| "is_string v = False"

text \<open>
  A plain object is a finite map from property names to values.  Reading a missing
  property gives \<open>undefined\<close>; \<open>name in obj\<close> is membership in the domain.
\<close>

type_synonym obj = "string \<rightharpoonup> jsval"

definition field :: "obj \<Rightarrow> string \<Rightarrow> jsval" where
  "field e name = (case e name of None \<Rightarrow> Undefined | Some v \<Rightarrow> v)"

section \<open>The settings client\<close>

text \<open>
  Exceptions are values.  The two errors raised by the client itself carry the key;
  \<open>Thrown v\<close> is an exception raised by a library function or the rejection value of
  the remote call.
\<close>

datatype error =
    UnrecognizedSettingError string
  | OverriddenSettingError string
  | Thrown jsval

text \<open>
  The library functions that \<open>get\<close>, \<open>_setLocally\<close> and \<open>_update\<close> call
  (\<open>JSON.parse\<close>, \<open>JSON.stringify\<close>, \<open>parseFloat\<close>, lodash's \<open>defaultsDeep\<close>)
  are parameters of these operations: the first three read or build what a
  reference points to, and the last one creates objects.
  \<open>defaultsDeep env d s\<close> stands for \<open>defaultsDeep({}, d, s)\<close>.
\<close>

record builtins =
  JSON_parse :: "jsval \<Rightarrow> error + jsval"
  JSON_stringify :: "jsval \<Rightarrow> error + jsval"
  parseFloat :: "jsval \<Rightarrow> jsval"
  defaultsDeep :: "(string \<rightharpoonup> obj) \<Rightarrow> (string \<rightharpoonup> obj) \<Rightarrow> (string \<rightharpoonup> obj)"

text \<open>An observer notification \<open>{key, newValue, oldValue}\<close>.\<close>

record update =
  key :: string
  newValue :: jsval
  oldValue :: jsval

text \<open>
  The client object.  \<open>defaults\<close>, \<open>cache\<close>, \<open>api\<close> and \<open>updateObservers\<close> are the
  fields \<open>_defaults\<close>, \<open>_cache\<close>, \<open>_api\<close> and \<open>_updateObservers\<close> (a Set, kept in
  insertion order).  \<open>api\<close> is the response of \<open>_api.batchSet(key, value)\<close>: the
  returned settings, or the rejection.  The await in \<open>_update\<close> is modelled as one
  step, with nothing interleaved.  Three logs record what the collaborators
  receive: the \<open>batchSet\<close> calls issued, the errors handed to \<open>_notify.error\<close>, and
  the notifications delivered to each observer.
\<close>

record 'o client =
  defaults :: "string \<rightharpoonup> obj"
  cache :: "string \<rightharpoonup> obj"
  api :: "string \<Rightarrow> jsval \<Rightarrow> error + (string \<rightharpoonup> obj)"
  updateObservers :: "'o list"
  requests :: "(string \<times> jsval) list"
  notified :: "error list"
  delivered :: "('o \<times> update) list"

text \<open>
  \<open>key in this._cache\<close> is membership in the domain of the cache (the properties that
  every object inherits are left out), and the entries of both tables are objects.
  \<open>this._cache[key]\<close> is \<open>the (cache c k)\<close>, read only where the key is declared.
\<close>

definition isDeclared :: "'o client \<Rightarrow> string \<Rightarrow> bool" where
  "isDeclared c k \<longleftrightarrow> k \<in> dom (cache c)"

definition isDefault :: "'o client \<Rightarrow> string \<Rightarrow> bool" where
  "isDefault c k \<longleftrightarrow> \<not> isDeclared c k \<or> loose_null (field (the (cache c k)) ''userValue'')"

definition isCustom :: "'o client \<Rightarrow> string \<Rightarrow> bool" where
  "isCustom c k \<longleftrightarrow> isDeclared c k \<and> ''value'' \<notin> dom (the (cache c k))"

definition isOverridden :: "'o client \<Rightarrow> string \<Rightarrow> bool" where
  "isOverridden c k \<longleftrightarrow> isDeclared c k \<and> truthy (field (the (cache c k)) ''isOverridden'')"

definition assertUpdateAllowed :: "'o client \<Rightarrow> string \<Rightarrow> error + unit" where
  "assertUpdateAllowed c k =
     (if isOverridden c k then Inl (OverriddenSettingError k) else Inr ())"

text \<open>\<open>get(key, defaultValue)\<close>; a call without the second argument passes \<open>Undefined\<close>.\<close>

definition get :: "builtins \<Rightarrow> 'o client \<Rightarrow> string \<Rightarrow> jsval \<Rightarrow> error + jsval" where
  "get env c k defaultValue =
     (if \<not> isDeclared c k then
        (if defaultValue \<noteq> Undefined then Inr defaultValue
         else Inl (UnrecognizedSettingError k))
      else
        let userValue = field (the (cache c k)) ''userValue'';
            definedDefault = field (the (cache c k)) ''value'';
            type = field (the (cache c k)) ''type'';
            currentValue =
              (if isDefault c k
               then (if defaultValue = Undefined then definedDefault else defaultValue)
               else userValue)
        in if type = JStr ''json'' then JSON_parse env currentValue
           else if type = JStr ''number'' then Inr (parseFloat env currentValue)
           else Inr currentValue)"

definition priv_broadcastUpdate :: "'o client \<Rightarrow> string \<Rightarrow> jsval \<Rightarrow> jsval \<Rightarrow> 'o client" where
  "priv_broadcastUpdate c k newV oldV =
     c\<lparr>delivered := delivered c @
          map (\<lambda>observer. (observer, \<lparr>key = k, newValue = newV, oldValue = oldV\<rparr>))
              (updateObservers c)\<rparr>"

definition subscribe :: "'o client \<Rightarrow> 'o \<Rightarrow> 'o client" where
  "subscribe c observer =
     (if observer \<in> set (updateObservers c) then c
      else c\<lparr>updateObservers := updateObservers c @ [observer]\<rparr>)"

definition unsubscribe :: "'o client \<Rightarrow> 'o \<Rightarrow> 'o client" where
  "unsubscribe c observer = c\<lparr>updateObservers := removeAll observer (updateObservers c)\<rparr>"

definition overrideLocalDefault :: "'o client \<Rightarrow> string \<Rightarrow> jsval \<Rightarrow> 'o client" where
  "overrideLocalDefault c k newDefault =
     (let prevDefault =
            (case defaults c k of Some d \<Rightarrow> field d ''value'' | None \<Rightarrow> Undefined);
          c1 = c\<lparr>defaults := (defaults c)
                  (k \<mapsto> (case defaults c k of Some d \<Rightarrow> d | None \<Rightarrow> Map.empty)
                          (''value'' \<mapsto> newDefault))\<rparr>;
          c2 = c1\<lparr>cache := (cache c1)
                  (k \<mapsto> (case cache c1 k of Some e \<Rightarrow> e | None \<Rightarrow> Map.empty)
                          (''value'' \<mapsto> newDefault))\<rparr>
      in if loose_null (field (the (cache c2 k)) ''userValue'')
         then priv_broadcastUpdate c2 k newDefault prevDefault
         else c2)"

text \<open>
  \<open>_setLocally(key, newValue)\<close>.  The state returned with an exception is the state
  at the moment it is raised.
\<close>

definition priv_setLocally ::
  "builtins \<Rightarrow> 'o client \<Rightarrow> string \<Rightarrow> jsval \<Rightarrow> (error + unit) \<times> 'o client" where
  "priv_setLocally env c k newV =
     (case assertUpdateAllowed c k of
        Inl e \<Rightarrow> (Inl e, c)
      | Inr _ \<Rightarrow>
          let c1 = (if \<not> isDeclared c k then c\<lparr>cache := (cache c)(k \<mapsto> Map.empty)\<rparr> else c)
          in (case get env c1 k Undefined of
               Inl e \<Rightarrow> (Inl e, c1)
             | Inr oldV \<Rightarrow>
                 let entry = the (cache c1 k)
                 in if newV = Null then
                      (Inr (), priv_broadcastUpdate
                         (c1\<lparr>cache := (cache c1)(k \<mapsto> entry(''userValue'' := None))\<rparr>)
                         k newV oldV)
                    else if field entry ''type'' = JStr ''json'' \<and> \<not> is_string newV then
                      (case JSON_stringify env newV of
                         Inl e \<Rightarrow> (Inl e, c1)
                       | Inr s \<Rightarrow>
                           (Inr (), priv_broadcastUpdate
                              (c1\<lparr>cache := (cache c1)(k \<mapsto> entry(''userValue'' \<mapsto> s))\<rparr>)
                              k newV oldV))
                    else
                      (Inr (), priv_broadcastUpdate
                         (c1\<lparr>cache := (cache c1)(k \<mapsto> entry(''userValue'' \<mapsto> newV))\<rparr>)
                         k newV oldV)))"

text \<open>\<open>_update(key, value)\<close>: the resolved boolean, or the exception the promise rejects with.\<close>

definition priv_update ::
  "builtins \<Rightarrow> 'o client \<Rightarrow> string \<Rightarrow> jsval \<Rightarrow> (error + bool) \<times> 'o client" where
  "priv_update env c k v =
     (case assertUpdateAllowed c k of
        Inl e \<Rightarrow> (Inl e, c)
      | Inr _ \<Rightarrow>
          let declared = isDeclared c k;
              dflts = defaults c;
              oldVal = (if declared then field (the (cache c k)) ''userValue'' else Undefined);
              newVal = (if k \<in> dom dflts \<and> strict_eq (field (the (dflts k)) ''defaultValue'') v
                        then Null else v);
              unchanged = strict_eq oldVal newVal
          in if unchanged then (Inr True, c)
             else
               (case (if declared then get env c k Undefined else Inr Undefined) of
                 Inl e \<Rightarrow> (Inl e, c)
               | Inr initialVal \<Rightarrow>
                   (case priv_setLocally env c k newVal of
                      (Inl e, c1) \<Rightarrow> (Inl e, c1)
                    | (Inr _, c1) \<Rightarrow>
                        let c2 = c1\<lparr>requests := requests c1 @ [(k, newVal)]\<rparr>
                        in (case api c2 k newVal of
                             Inr settings \<Rightarrow>
                               (Inr True, c2\<lparr>cache := defaultsDeep env dflts settings\<rparr>)
                           | Inl err \<Rightarrow>
                               (case priv_setLocally env c2 k initialVal of
                                  (Inl e, c3) \<Rightarrow> (Inl e, c3)
                                | (Inr _, c3) \<Rightarrow>
                                    (Inr False, c3\<lparr>notified := notified c3 @ [err]\<rparr>))))))"

definition set_setting ::
  "builtins \<Rightarrow> 'o client \<Rightarrow> string \<Rightarrow> jsval \<Rightarrow> (error + bool) \<times> 'o client" where
  "set_setting env c k v = priv_update env c k v"

definition remove_setting ::
  "builtins \<Rightarrow> 'o client \<Rightarrow> string \<Rightarrow> (error + bool) \<times> 'o client" where
  "remove_setting env c k = priv_update env c k Null"

text \<open>
  Three abbreviations used in the statements below.  A key is plainly typed when \<open>get\<close>
  hands its stored value back as it is (its \<open>type\<close> is neither \<open>'json'\<close> nor
  \<open>'number'\<close>); \<open>storedValue\<close> is that value; \<open>withUserValue\<close> is the cache
  assignment of \<open>_setLocally\<close> for such a key.
\<close>

definition plainTyped :: "'o client \<Rightarrow> string \<Rightarrow> bool" where
  "plainTyped c k \<longleftrightarrow> field (the (cache c k)) ''type'' \<noteq> JStr ''json''
                     \<and> field (the (cache c k)) ''type'' \<noteq> JStr ''number''"

definition storedValue :: "'o client \<Rightarrow> string \<Rightarrow> jsval" where
  "storedValue c k =
     (if isDefault c k then field (the (cache c k)) ''value''
      else field (the (cache c k)) ''userValue'')"

definition withUserValue :: "'o client \<Rightarrow> string \<Rightarrow> jsval \<Rightarrow> 'o client" where
  "withUserValue c k v =
     c\<lparr>cache := (cache c)
          (k \<mapsto> (the (cache c k))(''userValue'' := (if v = Null then None else Some v)))\<rparr>"

section \<open>The client's objects in a heap\<close>

text \<open>
  \<open>getAll\<close> and the constructor hand objects across the boundary of the client, so
  what they share with their callers needs a heap.  An object is the list of its own
  properties; the heap is the list of all objects, the object at address \<open>a\<close> is
  \<open>h ! a\<close>, and a new object is appended.  The tables of the client (\<open>_defaults\<close>,
  \<open>_cache\<close>), their entries and every non-primitive setting value are objects of the
  heap.
\<close>

type_synonym hobj = "(string \<times> jsval) list"
type_synonym heap = "hobj list"

text \<open>
  A value is known to a set of addresses when it is a primitive or a reference into
  the set.  A region of the heap is closed when its objects exist and refer to the
  region only; the heap is closed when it has no dangling reference.
\<close>

definition known :: "nat set \<Rightarrow> jsval \<Rightarrow> bool" where
  "known M v = (case v of JRef a \<Rightarrow> a \<in> M | _ \<Rightarrow> True)"

definition props_known :: "nat set \<Rightarrow> hobj \<Rightarrow> bool" where
  "props_known M ps = list_all (\<lambda>p. known M (snd p)) ps"




text \<open>The objects that can be reached from a value by following properties.\<close>

inductive_set reach :: "heap \<Rightarrow> jsval \<Rightarrow> nat set" for h :: heap and v :: jsval where
  root: "v = JRef a \<Longrightarrow> a \<in> reach h v"
| step: "a \<in> reach h v \<Longrightarrow> a < length h \<Longrightarrow> (name, JRef b) \<in> set (h ! a)
         \<Longrightarrow> b \<in> reach h v"

code_pred reachp .














section \<open>The context menu builder\<close>

text \<open>
  \<open>'x\<close> is the context \<open>{embeddable, containerState}\<close> handed to every callback,
  \<open>'n\<close> the type of rendered nodes (icons, panel content), \<open>'r\<close> what a click does.
  The callbacks of panels and actions are functions of the context.
\<close>

record ('x, 'n) DashboardContextMenuPanel =
  panel_id :: string
  title :: string
  getContent :: "'x \<Rightarrow> 'n option"

record ('x, 'n, 'r) DashboardPanelAction =
  action_id :: string
  displayName :: string
  parentPanelId :: string
  icon :: "'n option"
  childContextMenuPanel :: "('x, 'n) DashboardContextMenuPanel option"
  isVisible :: "'x \<Rightarrow> bool"
  isDisabled :: "'x \<Rightarrow> bool"
  onClick :: "'x \<Rightarrow> 'r"

record ('n, 'r) EuiContextMenuPanelItemDescriptor =
  item_name :: string
  item_icon :: "'n option"
  item_panel :: "string option"
  item_onClick :: "unit \<Rightarrow> 'r"
  item_disabled :: bool
  item_data_test_subj :: string

record ('n, 'r) EuiContextMenuPanelDescriptor =
  eui_id :: string
  eui_title :: string
  eui_items :: "('n, 'r) EuiContextMenuPanelItemDescriptor list"
  eui_content :: "'n option"

definition getActionsForPanel ::
  "string \<Rightarrow> ('x, 'n, 'r) DashboardPanelAction list \<Rightarrow> ('x, 'n, 'r) DashboardPanelAction list" where
  "getActionsForPanel contextMenuPanelId allActions =
     filter (\<lambda>action. parentPanelId action = contextMenuPanelId) allActions"

definition convertPanelActionToContextMenuItem ::
  "('x, 'n, 'r) DashboardPanelAction \<Rightarrow> 'x \<Rightarrow> ('n, 'r) EuiContextMenuPanelItemDescriptor" where
  "convertPanelActionToContextMenuItem action ctx =
     \<lparr>item_name = displayName action,
      item_icon = icon action,
      item_panel = map_option panel_id (childContextMenuPanel action),
      item_onClick = (\<lambda>_. onClick action ctx),
      item_disabled = isDisabled action ctx,
      item_data_test_subj = ''dashboardPanelAction-'' @ action_id action\<rparr>"

text \<open>
  \<open>buildEuiContextMenuPanels\<close> and \<open>buildEuiContextMenuPanelItemsAndChildPanels\<close>
  call each other, and nothing in the source bounds the nesting.  The first argument
  is fuel: the number of nested calls of \<open>buildEuiContextMenuPanels\<close> still allowed.
  \<open>None\<close> means the fuel ran out before the call returned.  \<open>forEachAction\<close> is the
  body of \<open>actionsForPanel.forEach\<close>, with the arrays \<open>items\<close> and \<open>childPanels\<close> it
  pushes to.
\<close>

fun buildEuiContextMenuPanels ::
    "nat \<Rightarrow> ('x, 'n) DashboardContextMenuPanel \<Rightarrow> ('x, 'n, 'r) DashboardPanelAction list \<Rightarrow> 'x
       \<Rightarrow> ('n, 'r) EuiContextMenuPanelDescriptor list option"
  and buildEuiContextMenuPanelItemsAndChildPanels ::
    "nat \<Rightarrow> string \<Rightarrow> ('x, 'n, 'r) DashboardPanelAction list \<Rightarrow> 'x
       \<Rightarrow> (('n, 'r) EuiContextMenuPanelItemDescriptor list
            \<times> ('n, 'r) EuiContextMenuPanelDescriptor list) option"
  and forEachAction ::
    "nat \<Rightarrow> ('x, 'n, 'r) DashboardPanelAction list \<Rightarrow> ('x, 'n, 'r) DashboardPanelAction list \<Rightarrow> 'x
       \<Rightarrow> ('n, 'r) EuiContextMenuPanelItemDescriptor list
       \<Rightarrow> ('n, 'r) EuiContextMenuPanelDescriptor list
       \<Rightarrow> (('n, 'r) EuiContextMenuPanelItemDescriptor list
            \<times> ('n, 'r) EuiContextMenuPanelDescriptor list) option"
where
  "buildEuiContextMenuPanels 0 contextMenuPanel actions ctx = None"
| "buildEuiContextMenuPanels (Suc fuel) contextMenuPanel actions ctx =
     (case buildEuiContextMenuPanelItemsAndChildPanels fuel (panel_id contextMenuPanel) actions ctx of
        None \<Rightarrow> None
      | Some (items, childPanels) \<Rightarrow>
          Some ([\<lparr>eui_id = panel_id contextMenuPanel,
                  eui_title = title contextMenuPanel,
                  eui_items = items,
                  eui_content = getContent contextMenuPanel ctx\<rparr>] @ childPanels))"
| "buildEuiContextMenuPanelItemsAndChildPanels fuel contextMenuPanelId actions ctx =
     forEachAction fuel (getActionsForPanel contextMenuPanelId actions) actions ctx [] []"
| "forEachAction fuel [] actions ctx items childPanels = Some (items, childPanels)"
| "forEachAction fuel (action # rest) actions ctx items childPanels =
     (if \<not> isVisible action ctx then forEachAction fuel rest actions ctx items childPanels
      else
        (case childContextMenuPanel action of
           None \<Rightarrow>
             forEachAction fuel rest actions ctx
               (items @ [convertPanelActionToContextMenuItem action ctx]) childPanels
         | Some child \<Rightarrow>
             (case buildEuiContextMenuPanels fuel child actions ctx of
                None \<Rightarrow> None
              | Some panels \<Rightarrow>
                  forEachAction fuel rest actions ctx
                    (items @ [convertPanelActionToContextMenuItem action ctx])
                    (childPanels @ panels))))"

text \<open>
  The child-panel reachability graph: an edge from a panel id to the id of each child
  panel declared by a visible action of that panel.
\<close>

definition childEdges ::
  "('x, 'n, 'r) DashboardPanelAction list \<Rightarrow> 'x \<Rightarrow> (string \<times> string) set" where
  "childEdges actions ctx =
     set (concat (map (\<lambda>action. case childContextMenuPanel action of
                                   None \<Rightarrow> []
                                 | Some child \<Rightarrow>
                                     if isVisible action ctx
                                     then [(parentPanelId action, panel_id child)] else [])
                      actions))"

text \<open>
  The child panels declared by the visible actions of a list, in the order of the list,
  one entry per action (so a panel declared by two actions is listed twice);
  \<open>visibleChildPanels\<close> takes the actions of one panel.
\<close>

definition declaredChildPanels ::
  "('x, 'n, 'r) DashboardPanelAction list \<Rightarrow> 'x \<Rightarrow> ('x, 'n) DashboardContextMenuPanel list" where
  "declaredChildPanels l ctx =
     concat (map (\<lambda>action. case childContextMenuPanel action of
                              None \<Rightarrow> []
                            | Some child \<Rightarrow> if isVisible action ctx then [child] else [])
                 l)"

definition visibleChildPanels ::
  "string \<Rightarrow> ('x, 'n, 'r) DashboardPanelAction list \<Rightarrow> 'x \<Rightarrow> ('x, 'n) DashboardContextMenuPanel list" where
  "visibleChildPanels contextMenuPanelId actions ctx =
     declaredChildPanels (getActionsForPanel contextMenuPanelId actions) ctx"

text \<open>
  The descriptor of the panel itself, as the projection describes it: the panel's id,
  title and content, and one item per visible action of the panel.
\<close>

definition rootDescriptor ::
  "('x, 'n) DashboardContextMenuPanel \<Rightarrow> ('x, 'n, 'r) DashboardPanelAction list \<Rightarrow> 'x
     \<Rightarrow> ('n, 'r) EuiContextMenuPanelDescriptor" where
  "rootDescriptor p actions ctx =
     \<lparr>eui_id = panel_id p,
      eui_title = title p,
      eui_items = map (\<lambda>action. convertPanelActionToContextMenuItem action ctx)
                      (filter (\<lambda>action. isVisible action ctx)
                              (getActionsForPanel (panel_id p) actions)),
      eui_content = getContent p ctx\<rparr>"


section \<open>Sample data\<close>

text \<open>
  Concrete inputs for the evaluations below.  The sample library functions list the
  values of \<open>JSON.parse\<close> and \<open>JSON.stringify\<close> at the arguments that occur:
  \<open>JSON.parse('null')\<close> is \<open>null\<close>, \<open>JSON.parse('5')\<close> is \<open>5\<close>, \<open>JSON.parse('7')\<close>
  is \<open>7\<close>, \<open>JSON.parse('oops')\<close> raises a SyntaxError, and \<open>JSON.stringify(5)\<close> is
  \<open>'5'\<close>.  \<open>sample_defaultsDeep\<close> is lodash's \<open>defaultsDeep({}, d, s)\<close> on entries
  whose properties are primitives: a property of \<open>d\<close> wins unless it is \<open>undefined\<close>,
  and \<open>s\<close> fills in the rest.
\<close>

definition sample_JSON_parse :: "jsval \<Rightarrow> error + jsval" where
  "sample_JSON_parse text =
     (if text = JStr ''null'' then Inr Null
      else if text = JStr ''5'' then Inr (JNum 5)
      else if text = JStr ''7'' then Inr (JNum 7)
      else Inl (Thrown (JStr ''SyntaxError'')))"

definition sample_JSON_stringify :: "jsval \<Rightarrow> error + jsval" where
  "sample_JSON_stringify v =
     (if v = Null then Inr (JStr ''null'')
      else if v = JNum 5 then Inr (JStr ''5'')
      else if v = JNum 7 then Inr (JStr ''7'')
      else Inr Undefined)"

definition sample_parseFloat :: "jsval \<Rightarrow> jsval" where
  "sample_parseFloat v = (case v of JNum r \<Rightarrow> JNum r | _ \<Rightarrow> JNaN)"

definition sample_defaultsDeep ::
  "(string \<rightharpoonup> obj) \<Rightarrow> (string \<rightharpoonup> obj) \<Rightarrow> (string \<rightharpoonup> obj)" where
  "sample_defaultsDeep d s =
     (\<lambda>k. case d k of
            None \<Rightarrow> s k
          | Some dk \<Rightarrow>
              (case s k of
                 None \<Rightarrow> Some dk
               | Some sk \<Rightarrow>
                   Some (\<lambda>name. case dk name of
                                  None \<Rightarrow> sk name
                                | Some v \<Rightarrow>
                                    if v = Undefined \<and> name \<in> dom sk then sk name
                                    else Some v)))"

definition sample_env :: builtins where
  "sample_env =
     \<lparr>JSON_parse = sample_JSON_parse, JSON_stringify = sample_JSON_stringify,
      parseFloat = sample_parseFloat, defaultsDeep = sample_defaultsDeep\<rparr>"

text \<open>
  A remote that stores what it is sent and answers with the user-provided settings,
  and a remote that rejects every request.
\<close>

definition accepting_api :: "string \<Rightarrow> jsval \<Rightarrow> error + (string \<rightharpoonup> obj)" where
  "accepting_api k v = Inr (if v = Null then Map.empty else [k \<mapsto> [''userValue'' \<mapsto> v]])"

definition rejecting_api :: "string \<Rightarrow> jsval \<Rightarrow> error + (string \<rightharpoonup> obj)" where
  "rejecting_api k v = Inl (Thrown (JStr ''503''))"

text \<open>
  A client with one observer and one declared key \<open>k\<close> whose cache entry is given:
  \<open>client_default\<close> has the declared default \<open>'a'\<close> and no override,
  \<open>client_custom\<close> the override \<open>'b'\<close>, \<open>client_locked\<close> is overridden by the server,
  \<open>client_json\<close> is a \<open>json\<close> key with default text \<open>'7'\<close> and override text
  \<open>'null'\<close>, \<open>client_json_default\<close> the same key without an override.
\<close>

definition client_with ::
  "obj \<Rightarrow> obj \<Rightarrow> (string \<Rightarrow> jsval \<Rightarrow> error + (string \<rightharpoonup> obj)) \<Rightarrow> nat client" where
  "client_with declared entry remote =
     \<lparr>defaults = [''k'' \<mapsto> declared], cache = [''k'' \<mapsto> entry], api = remote,
      updateObservers = [0], requests = [], notified = [], delivered = []\<rparr>"

definition client_default ::
  "(string \<Rightarrow> jsval \<Rightarrow> error + (string \<rightharpoonup> obj)) \<Rightarrow> nat client" where
  "client_default = client_with [''value'' \<mapsto> JStr ''a''] [''value'' \<mapsto> JStr ''a'']"

definition client_custom ::
  "(string \<Rightarrow> jsval \<Rightarrow> error + (string \<rightharpoonup> obj)) \<Rightarrow> nat client" where
  "client_custom =
     client_with [''value'' \<mapsto> JStr ''a'']
                 [''value'' \<mapsto> JStr ''a'', ''userValue'' \<mapsto> JStr ''b'']"

definition client_locked ::
  "(string \<Rightarrow> jsval \<Rightarrow> error + (string \<rightharpoonup> obj)) \<Rightarrow> nat client" where
  "client_locked =
     client_with [''value'' \<mapsto> JStr ''a'']
                 [''value'' \<mapsto> JStr ''a'', ''userValue'' \<mapsto> JStr ''b'',
                  ''isOverridden'' \<mapsto> JBool True]"

definition client_json ::
  "(string \<Rightarrow> jsval \<Rightarrow> error + (string \<rightharpoonup> obj)) \<Rightarrow> nat client" where
  "client_json =
     client_with [''type'' \<mapsto> JStr ''json'', ''value'' \<mapsto> JStr ''7'']
                 [''type'' \<mapsto> JStr ''json'', ''value'' \<mapsto> JStr ''7'',
                  ''userValue'' \<mapsto> JStr ''null'']"

definition client_json_default ::
  "(string \<Rightarrow> jsval \<Rightarrow> error + (string \<rightharpoonup> obj)) \<Rightarrow> nat client" where
  "client_json_default =
     client_with [''type'' \<mapsto> JStr ''json'', ''value'' \<mapsto> JStr ''7'']
                 [''type'' \<mapsto> JStr ''json'', ''value'' \<mapsto> JStr ''7'']"






text \<open>
  A menu with the panels \<open>mainMenu\<close> and \<open>customize\<close>.  The context is trivial, nodes
  are strings, and a click yields the name of the action.
\<close>

definition main_panel :: "(unit, string) DashboardContextMenuPanel" where
  "main_panel = \<lparr>panel_id = ''mainMenu'', title = ''Options'', getContent = (\<lambda>_. None)\<rparr>"

definition sub_panel :: "(unit, string) DashboardContextMenuPanel" where
  "sub_panel =
     \<lparr>panel_id = ''customize'', title = ''Customize panel'', getContent = (\<lambda>_. Some ''form'')\<rparr>"

definition menu_action ::
  "string \<Rightarrow> string \<Rightarrow> (unit, string) DashboardContextMenuPanel option \<Rightarrow> bool
     \<Rightarrow> (unit, string, string) DashboardPanelAction" where
  "menu_action name parent child visible =
     \<lparr>action_id = name, displayName = name, parentPanelId = parent, icon = None,
      childContextMenuPanel = child, isVisible = (\<lambda>_. visible), isDisabled = (\<lambda>_. False),
      onClick = (\<lambda>_. name)\<rparr>"

definition hidden_actions :: "(unit, string, string) DashboardPanelAction list" where
  "hidden_actions =
     [menu_action ''hidden'' ''mainMenu'' (Some sub_panel) False,
      menu_action ''edit'' ''mainMenu'' None True]"

definition twice_actions :: "(unit, string, string) DashboardPanelAction list" where
  "twice_actions =
     [menu_action ''first'' ''mainMenu'' (Some sub_panel) True,
      menu_action ''second'' ''mainMenu'' (Some sub_panel) True]"

definition cyclic_actions :: "(unit, string, string) DashboardPanelAction list" where
  "cyclic_actions =
     [menu_action ''open'' ''mainMenu'' (Some sub_panel) True,
      menu_action ''back'' ''customize'' (Some main_panel) True]"

section \<open>Properties of the settings client\<close>

lemmas client_defs =
  isDeclared_def isDefault_def isOverridden_def assertUpdateAllowed_def get_def
  priv_broadcastUpdate_def priv_setLocally_def priv_update_def set_setting_def
  remove_setting_def field_def strict_eq_def loose_null_def Let_def domIff

lemmas sample_defs =
  sample_env_def sample_JSON_parse_def sample_JSON_stringify_def sample_parseFloat_def
  sample_defaultsDeep_def accepting_api_def rejecting_api_def client_with_def
  client_default_def client_custom_def client_locked_def client_json_def
  client_json_default_def

subsection \<open>Mutation of a server-overridden key\<close>



subsection \<open>Reading an undeclared key\<close>



subsection \<open>Setting a key to its declared default\<close>

text \<open>
  Claim C1.  The claim: \<open>set(key, v)\<close> with \<open>v\<close> equal to the declared default stores
  no user override, so that afterwards \<open>isDefault(key)\<close> holds.  The code compares
  \<open>v\<close> with the property \<open>defaultValue\<close> of the defaults entry, while the declared
  default is the property \<open>value\<close> (the one \<open>get\<close> and \<open>overrideLocalDefault\<close> use).
  Evaluated on a client whose key \<open>k\<close> has the declared default \<open>'a'\<close> and no
  override, with a remote that accepts: \<open>set('k', 'a')\<close> sends \<open>batchSet('k', 'a')\<close>
  instead of \<open>batchSet('k', null)\<close>, and afterwards the key holds the override
  \<open>'a'\<close> and \<open>isDefault('k')\<close> is false.
\<close>

theorem set_declared_default_stores_override:
  "get sample_env (client_default accepting_api) ''k'' Undefined = Inr (JStr ''a'')
   \<and> isDefault (client_default accepting_api) ''k''
   \<and> (case set_setting sample_env (client_default accepting_api) ''k'' (JStr ''a'') of
        (r, c') \<Rightarrow>
          r = Inr True
          \<and> requests c' = [(''k'', JStr ''a'')]
          \<and> the (cache c' ''k'') ''userValue'' = Some (JStr ''a'')
          \<and> \<not> isDefault c' ''k''
          \<and> get sample_env c' ''k'' Undefined = Inr (JStr ''a''))"
  by (simp add: client_defs sample_defs)

theorem set_declared_default_stores_override_witness:
  "\<not> isDefault (snd (set_setting sample_env (client_default accepting_api) ''k'' (JStr ''a''))) ''k''"
  using set_declared_default_stores_override by (simp add: split_beta)

subsection \<open>A rejected update\<close>

text \<open>
  For a declared, plainly typed key that the server does not override, \<open>_setLocally\<close>
  and \<open>_update\<close> in closed form.
\<close>

lemma get_plain:
  "isDeclared c k \<Longrightarrow> plainTyped c k \<Longrightarrow> get env c k Undefined = Inr (storedValue c k)"
  by (simp add: get_def plainTyped_def storedValue_def Let_def)

lemma setLocally_plain:
  assumes "isDeclared c k" "\<not> isOverridden c k" "plainTyped c k"
  shows "priv_setLocally env c k v =
           (Inr (), priv_broadcastUpdate (withUserValue c k v) k v (storedValue c k))"
  using assms
  by (simp add: priv_setLocally_def assertUpdateAllowed_def get_plain withUserValue_def
      plainTyped_def Let_def)

lemma cache_only:
  assumes "cache c' = cache c"
  shows "isDeclared c' k = isDeclared c k" "isOverridden c' k = isOverridden c k"
    "plainTyped c' k = plainTyped c k" "storedValue c' k = storedValue c k"
  using assms
  by (simp_all add: isDeclared_def isOverridden_def plainTyped_def storedValue_def isDefault_def)

lemma withUserValue_keeps:
  assumes "isDeclared c k"
  shows "isDeclared (withUserValue c k v) k"
    "isOverridden (withUserValue c k v) k = isOverridden c k"
    "plainTyped (withUserValue c k v) k = plainTyped c k"
  using assms
  by (simp_all add: withUserValue_def isDeclared_def isOverridden_def plainTyped_def field_def domIff)

lemma storedValue_revert:
  assumes "isDeclared c k" and "cache c' = cache (withUserValue c k v)"
  shows "storedValue (withUserValue c' k (storedValue c k)) k = storedValue c k"
  using assms
  by (simp add: storedValue_def withUserValue_def isDefault_def isDeclared_def field_def
      loose_null_def domIff split: option.splits)

lemma update_plain:
  fixes c :: "'o client" and v :: jsval
  assumes decl: "isDeclared c k" and free: "\<not> isOverridden c k" and plain: "plainTyped c k"
  defines "newVal \<equiv> (if k \<in> dom (defaults c)
                          \<and> strict_eq (field (the (defaults c k)) ''defaultValue'') v
                       then Null else v)"
  defines "c1 \<equiv> priv_broadcastUpdate (withUserValue c k newVal) k newVal (storedValue c k)"
  defines "c2 \<equiv> c1\<lparr>requests := requests c1 @ [(k, newVal)]\<rparr>"
  defines "c3 \<equiv> priv_broadcastUpdate (withUserValue c2 k (storedValue c k)) k (storedValue c k)
                    (storedValue c2 k)"
  shows "priv_update env c k v =
     (if strict_eq (field (the (cache c k)) ''userValue'') newVal then (Inr True, c)
      else case api c k newVal of
             Inr settings \<Rightarrow> (Inr True, c2\<lparr>cache := defaultsDeep env (defaults c) settings\<rparr>)
           | Inl err \<Rightarrow> (Inr False, c3\<lparr>notified := notified c3 @ [err]\<rparr>))"
proof -
  have c1: "priv_setLocally env c k newVal = (Inr (), c1)"
    unfolding c1_def using decl free plain by (rule setLocally_plain)
  have cache2: "cache c2 = cache (withUserValue c k newVal)"
    by (simp add: c2_def c1_def priv_broadcastUpdate_def)
  have api2: "api c2 = api c" "api c1 = api c"
    by (simp_all add: c2_def c1_def priv_broadcastUpdate_def withUserValue_def)
  have "isDeclared c2 k" "\<not> isOverridden c2 k" "plainTyped c2 k"
    using decl free plain by (simp_all add: cache_only[OF cache2] withUserValue_keeps)
  then have c3: "priv_setLocally env c2 k (storedValue c k) = (Inr (), c3)"
    unfolding c3_def by (rule setLocally_plain)
  show ?thesis
    unfolding priv_update_def
    by (simp add: assertUpdateAllowed_def free decl get_plain[OF decl plain] Let_def
        newVal_def[symmetric] c1 c2_def[symmetric] c3 api2 split: sum.splits)
qed

text \<open>
  The revert works for every plainly typed key: when the request that \<open>set(key, v)\<close>
  issues is rejected, the call resolves to \<open>false\<close>, \<open>get(key)\<close> returns what it
  returned before, and the error sink receives the rejection, once.
\<close>

lemma failed_update_reverts_plain:
  assumes decl: "isDeclared c k" and free: "\<not> isOverridden c k" and plain: "plainTyped c k"
    and sent: "requests (snd (set_setting env c k v)) = requests c @ [(k, w)]"
    and rejected: "api c k w = Inl err"
  shows "fst (set_setting env c k v) = Inr False
       \<and> get env (snd (set_setting env c k v)) k Undefined = get env c k Undefined
       \<and> notified (snd (set_setting env c k v)) = notified c @ [err]"
proof -
  define newVal where "newVal = (if k \<in> dom (defaults c)
                          \<and> strict_eq (field (the (defaults c k)) ''defaultValue'') v
                       then Null else v)"
  define c1 where "c1 = priv_broadcastUpdate (withUserValue c k newVal) k newVal (storedValue c k)"
  define c2 where "c2 = c1\<lparr>requests := requests c1 @ [(k, newVal)]\<rparr>"
  define c3 where "c3 = priv_broadcastUpdate (withUserValue c2 k (storedValue c k)) k (storedValue c k)
                    (storedValue c2 k)"
  note upd = update_plain[OF decl free plain, of env v, folded newVal_def,
      folded c1_def, folded c2_def, folded c3_def]
  have req2: "requests c2 = requests c @ [(k, newVal)]" "requests c3 = requests c2"
    by (simp_all add: c3_def c2_def c1_def priv_broadcastUpdate_def withUserValue_def)
  have changed: "\<not> strict_eq (field (the (cache c k)) ''userValue'') newVal"
    using sent upd by (auto simp: set_setting_def)
  have w: "w = newVal"
    using sent upd changed req2 by (auto simp: set_setting_def split: sum.splits)
  define cf where "cf = c3\<lparr>notified := notified c3 @ [err]\<rparr>"
  have res: "set_setting env c k v = (Inr False, cf)"
    using upd changed rejected w by (simp add: set_setting_def cf_def)
  have cache2: "cache c2 = cache (withUserValue c k newVal)"
    by (simp add: c2_def c1_def priv_broadcastUpdate_def)
  have cachef: "cache cf = cache (withUserValue c2 k (storedValue c k))"
    by (simp add: cf_def c3_def priv_broadcastUpdate_def)
  have declf: "isDeclared cf k" and plainf: "plainTyped cf k"
    using decl plain
    by (simp_all add: cache_only[OF cachef] cache_only[OF cache2] withUserValue_keeps)
  have "storedValue cf k = storedValue c k"
    using storedValue_revert[OF decl cache2] by (simp add: cache_only[OF cachef])
  moreover have "notified cf = notified c @ [err]"
    by (simp add: cf_def c3_def c2_def c1_def priv_broadcastUpdate_def withUserValue_def)
  ultimately show ?thesis
    by (simp add: res get_plain[OF decl plain] get_plain[OF declf plainf])
qed

text \<open>
  Claim C2.  The claim: when \<open>batchSet\<close> rejects during \<open>set(key, v)\<close>, the call resolves
  to \<open>false\<close> without throwing, \<open>get(key)\<close> returns afterwards what it returned before,
  and the error sink is invoked exactly once.  The catch block reverts by
  \<open>_setLocally(key, initialVal)\<close>, where \<open>initialVal\<close> is the parsed value \<open>get\<close>
  returned, not the stored text; for a \<open>json\<close> key this does not restore the entry.
  Evaluated with a rejecting remote on a \<open>json\<close> key with default text \<open>'7'\<close>:
  \<^item> with the override text \<open>'null'\<close>, \<open>get('k')\<close> is \<open>null\<close>; \<open>set('k', 5)\<close> resolves to
    \<open>false\<close> and reports the rejection once, but the revert removes the override
    and \<open>get('k')\<close> is \<open>7\<close> afterwards;
  \<^item> without an override, \<open>set('k', 'oops')\<close> stores the text \<open>'oops'\<close>, the revert
    reads it back through \<open>JSON.parse\<close>, and the call ends with the SyntaxError:
    nothing is reverted and the error sink is never invoked.
\<close>

theorem rejected_update_of_json_key_not_reverted:
  "get sample_env (client_json rejecting_api) ''k'' Undefined = Inr Null
   \<and> (case set_setting sample_env (client_json rejecting_api) ''k'' (JNum 5) of
        (r, c') \<Rightarrow>
          r = Inr False
          \<and> requests c' = [(''k'', JNum 5)]
          \<and> notified c' = [Thrown (JStr ''503'')]
          \<and> get sample_env c' ''k'' Undefined = Inr (JNum 7))
   \<and> (case set_setting sample_env (client_json_default rejecting_api) ''k'' (JStr ''oops'') of
        (r, c') \<Rightarrow>
          r = Inl (Thrown (JStr ''SyntaxError''))
          \<and> requests c' = [(''k'', JStr ''oops'')]
          \<and> notified c' = []
          \<and> the (cache c' ''k'') ''userValue'' = Some (JStr ''oops''))"
  by (simp add: client_defs sample_defs)

subsection \<open>Setting a key to the value it has\<close>




subsection \<open>Replacing a declared default locally\<close>

text \<open>
  Claim C9.  For every key, \<open>overrideLocalDefault(key, newDefault)\<close> sets the \<open>value\<close>
  property of the key's entry to \<open>newDefault\<close> in the defaults table and in the cache
  (an entry is created where there was none, every other property and every other key
  is kept, so the user override is untouched), issues no request and reports no
  error, and notifies each observer of \<open>{key, newValue, oldValue}\<close>, with the new
  default and the previous default of the defaults table, exactly when the cache
  entry has no user override.
\<close>

theorem overrideLocalDefault_rebaselines:
  "defaults (overrideLocalDefault c k newDefault)
     = (defaults c)(k \<mapsto> (case defaults c k of Some d \<Rightarrow> d | None \<Rightarrow> Map.empty)
                           (''value'' \<mapsto> newDefault))
   \<and> cache (overrideLocalDefault c k newDefault)
     = (cache c)(k \<mapsto> (case cache c k of Some e \<Rightarrow> e | None \<Rightarrow> Map.empty)
                        (''value'' \<mapsto> newDefault))
   \<and> the (cache (overrideLocalDefault c k newDefault) k) ''userValue''
     = (case cache c k of Some e \<Rightarrow> e ''userValue'' | None \<Rightarrow> None)
   \<and> requests (overrideLocalDefault c k newDefault) = requests c
   \<and> notified (overrideLocalDefault c k newDefault) = notified c
   \<and> updateObservers (overrideLocalDefault c k newDefault) = updateObservers c
   \<and> delivered (overrideLocalDefault c k newDefault)
     = delivered c @
       (if (case cache c k of Some e \<Rightarrow> loose_null (field e ''userValue'') | None \<Rightarrow> True)
        then map (\<lambda>observer.
                    (observer,
                     \<lparr>key = k, newValue = newDefault,
                      oldValue = (case defaults c k of
                                    Some d \<Rightarrow> field d ''value'' | None \<Rightarrow> Undefined)\<rparr>))
                 (updateObservers c)
        else [])"
  by (cases "cache c k")
     (simp_all add: overrideLocalDefault_def priv_broadcastUpdate_def Let_def field_def
        loose_null_def)

theorem overrideLocalDefault_rebaselines_witness:
  "delivered (overrideLocalDefault (client_default rejecting_api) ''k'' (JStr ''z''))
     = [(0, \<lparr>key = ''k'', newValue = JStr ''z'', oldValue = JStr ''a''\<rparr>)]
   \<and> get sample_env (overrideLocalDefault (client_default rejecting_api) ''k'' (JStr ''z''))
         ''k'' Undefined = Inr (JStr ''z'')
   \<and> delivered (overrideLocalDefault (client_custom rejecting_api) ''k'' (JStr ''z'')) = []
   \<and> get sample_env (overrideLocalDefault (client_custom rejecting_api) ''k'' (JStr ''z''))
         ''k'' Undefined = Inr (JStr ''b'')
   \<and> requests (overrideLocalDefault (client_custom rejecting_api) ''k'' (JStr ''z'')) = []"
  using overrideLocalDefault_rebaselines [of "client_default rejecting_api" "''k''" "JStr ''z''"]
    overrideLocalDefault_rebaselines [of "client_custom rejecting_api" "''k''" "JStr ''z''"]
  by (simp add: client_defs sample_defs)

section \<open>Properties of the context menu builder\<close>

lemmas menu_sample_defs =
  main_panel_def sub_panel_def menu_action_def hidden_actions_def twice_actions_def
  cyclic_actions_def

subsection \<open>The projection in closed form\<close>

lemma those_eq_Some: "those xs = Some ys \<longleftrightarrow> xs = map Some ys"
  by (induction xs arbitrary: ys) (auto split: option.splits)

lemma those_eq_None: "those xs = None \<longleftrightarrow> None \<in> set xs"
  by (induction xs) (auto split: option.splits)


lemma declaredChildPanels_simps:
  "declaredChildPanels [] ctx = []"
  "declaredChildPanels (a # l) ctx =
     (case childContextMenuPanel a of
        None \<Rightarrow> []
      | Some child \<Rightarrow> if isVisible a ctx then [child] else [])
     @ declaredChildPanels l ctx"
  by (simp_all add: declaredChildPanels_def)

text \<open>
  The loop over the actions of a panel: it returns when the projection of every
  declared child panel returns, with one item per visible action and the child
  projections appended in the order of the actions.
\<close>

lemma forEachAction_char:
  "forEachAction fuel l actions ctx items childPanels =
     map_option (\<lambda>subtrees.
         (items @ map (\<lambda>a. convertPanelActionToContextMenuItem a ctx)
                      (filter (\<lambda>a. isVisible a ctx) l),
          childPanels @ concat subtrees))
       (those (map (\<lambda>child. buildEuiContextMenuPanels fuel child actions ctx)
                   (declaredChildPanels l ctx)))"
proof (induction l arbitrary: items childPanels)
  case Nil
  show ?case by (simp add: declaredChildPanels_simps)
next
  case (Cons a l)
  show ?case
  proof (cases "isVisible a ctx")
    case False
    then show ?thesis using Cons.IH
      by (simp add: declaredChildPanels_simps split: option.splits)
  next
    case True
    show ?thesis
    proof (cases "childContextMenuPanel a")
      case None
      then show ?thesis using True Cons.IH by (simp add: declaredChildPanels_simps)
    next
      case (Some child)
      then show ?thesis using True Cons.IH
        by (simp add: declaredChildPanels_simps option.map_comp comp_def split: option.splits)
    qed
  qed
qed

lemma build_Suc_char:
  "buildEuiContextMenuPanels (Suc fuel) p actions ctx =
     map_option (\<lambda>subtrees. rootDescriptor p actions ctx # concat subtrees)
       (those (map (\<lambda>child. buildEuiContextMenuPanels fuel child actions ctx)
                   (visibleChildPanels (panel_id p) actions ctx)))"
  by (simp add: forEachAction_char visibleChildPanels_def rootDescriptor_def split: option.splits)

lemma build_Suc_Some:
  assumes "buildEuiContextMenuPanels (Suc fuel) p actions ctx = Some panels"
  obtains subtrees where
    "map (\<lambda>child. buildEuiContextMenuPanels fuel child actions ctx)
         (visibleChildPanels (panel_id p) actions ctx) = map Some subtrees"
    and "panels = rootDescriptor p actions ctx # concat subtrees"
  using assms unfolding build_Suc_char by (auto simp: those_eq_Some)

subsection \<open>More fuel changes nothing\<close>

lemma build_mono_Suc:
  "buildEuiContextMenuPanels fuel p actions ctx = Some panels
   \<Longrightarrow> buildEuiContextMenuPanels (Suc fuel) p actions ctx = Some panels"
proof (induction fuel arbitrary: p panels)
  case 0
  then show ?case by simp
next
  case (Suc fuel)
  from Suc.prems obtain subtrees where
    st: "map (\<lambda>child. buildEuiContextMenuPanels fuel child actions ctx)
             (visibleChildPanels (panel_id p) actions ctx) = map Some subtrees"
    and panels: "panels = rootDescriptor p actions ctx # concat subtrees"
    by (rule build_Suc_Some)
  have "map (\<lambda>child. buildEuiContextMenuPanels (Suc fuel) child actions ctx)
             (visibleChildPanels (panel_id p) actions ctx)
      = map (\<lambda>child. buildEuiContextMenuPanels fuel child actions ctx)
             (visibleChildPanels (panel_id p) actions ctx)"
  proof (rule map_cong[OF refl])
    fix c assume "c \<in> set (visibleChildPanels (panel_id p) actions ctx)"
    then have "buildEuiContextMenuPanels fuel c actions ctx \<in> set (map Some subtrees)"
      using st by (metis image_eqI set_map)
    then obtain y where "buildEuiContextMenuPanels fuel c actions ctx = Some y" by auto
    then show "buildEuiContextMenuPanels (Suc fuel) c actions ctx
             = buildEuiContextMenuPanels fuel c actions ctx"
      using Suc.IH by simp
  qed
  with st have "those (map (\<lambda>child. buildEuiContextMenuPanels (Suc fuel) child actions ctx)
             (visibleChildPanels (panel_id p) actions ctx)) = Some subtrees"
    by (simp add: those_eq_Some)
  then show ?case unfolding build_Suc_char[of "Suc fuel"] by (simp add: panels)
qed

lemma build_mono_add:
  "buildEuiContextMenuPanels fuel p actions ctx = Some panels
   \<Longrightarrow> buildEuiContextMenuPanels (fuel + k) p actions ctx = Some panels"
  by (induction k) (simp_all del: buildEuiContextMenuPanels.simps add: build_mono_Suc)

lemma build_mono:
  assumes "buildEuiContextMenuPanels fuel p actions ctx = Some panels" and "fuel \<le> fuel'"
  shows "buildEuiContextMenuPanels fuel' p actions ctx = Some panels"
  using build_mono_add[OF assms(1), of "fuel' - fuel"] assms(2) by simp



subsection \<open>The reachability graph\<close>

lemma childEdges_iff:
  "(a, b) \<in> childEdges actions ctx \<longleftrightarrow>
     (\<exists>action child. action \<in> set actions \<and> isVisible action ctx
        \<and> childContextMenuPanel action = Some child
        \<and> parentPanelId action = a \<and> panel_id child = b)"
proof -
  have one: "(a, b) \<in> set (case childContextMenuPanel action of
                           None \<Rightarrow> []
                         | Some child \<Rightarrow>
                             if isVisible action ctx
                             then [(parentPanelId action, panel_id child)] else [])
      \<longleftrightarrow> (\<exists>child. isVisible action ctx \<and> childContextMenuPanel action = Some child
            \<and> parentPanelId action = a \<and> panel_id child = b)" for action
    by (cases "childContextMenuPanel action") auto
  have "(a, b) \<in> childEdges actions ctx \<longleftrightarrow>
      (\<exists>action \<in> set actions. (a, b) \<in> set (case childContextMenuPanel action of
                           None \<Rightarrow> []
                         | Some child \<Rightarrow>
                             if isVisible action ctx
                             then [(parentPanelId action, panel_id child)] else []))"
    unfolding childEdges_def by (simp only: set_concat set_map UN_iff bex_simps image_iff)
  then show ?thesis unfolding one by blast
qed

lemma visibleChildPanels_iff:
  "c \<in> set (visibleChildPanels pid actions ctx) \<longleftrightarrow>
     (\<exists>action. action \<in> set actions \<and> isVisible action ctx
        \<and> childContextMenuPanel action = Some c \<and> parentPanelId action = pid)"
proof -
  have one: "c \<in> set (case childContextMenuPanel action of
                           None \<Rightarrow> []
                         | Some child \<Rightarrow> if isVisible action ctx then [child] else [])
      \<longleftrightarrow> (isVisible action ctx \<and> childContextMenuPanel action = Some c)" for action
    by (cases "childContextMenuPanel action") auto
  have "c \<in> set (visibleChildPanels pid actions ctx) \<longleftrightarrow>
      (\<exists>action \<in> set (getActionsForPanel pid actions).
          c \<in> set (case childContextMenuPanel action of
                           None \<Rightarrow> []
                         | Some child \<Rightarrow> if isVisible action ctx then [child] else []))"
    unfolding visibleChildPanels_def declaredChildPanels_def
    by (simp only: set_concat set_map UN_iff bex_simps image_iff)
  then show ?thesis unfolding one getActionsForPanel_def by auto
qed

lemma childEdges_visibleChildPanels:
  "(a, b) \<in> childEdges actions ctx \<longleftrightarrow>
     (\<exists>c \<in> set (visibleChildPanels a actions ctx). panel_id c = b)"
  by (simp only: childEdges_iff visibleChildPanels_iff Bex_def) blast

lemma uniform_fuel:
  assumes "\<forall>c \<in> set cs. \<exists>fuel panels. buildEuiContextMenuPanels fuel c actions ctx = Some panels"
  shows "\<exists>fuel. \<forall>c \<in> set cs. \<exists>panels. buildEuiContextMenuPanels fuel c actions ctx = Some panels"
  using assms
proof (induction cs)
  case Nil
  then show ?case by simp
next
  case (Cons c cs)
  then obtain m where
    m: "\<forall>c \<in> set cs. \<exists>panels. buildEuiContextMenuPanels m c actions ctx = Some panels"
    by auto
  from Cons.prems obtain n panels where
    n: "buildEuiContextMenuPanels n c actions ctx = Some panels"
    by auto
  have "\<exists>panels. buildEuiContextMenuPanels (max m n) c' actions ctx = Some panels"
    if "c' \<in> set (c # cs)" for c'
  proof (cases "c' = c")
    case True
    then show ?thesis using build_mono[OF n, of "max m n"] by simp
  next
    case False
    with that m obtain panels' where "buildEuiContextMenuPanels m c' actions ctx = Some panels'"
      by auto
    from build_mono[OF this, of "max m n"] show ?thesis by simp
  qed
  then show ?case by blast
qed

text \<open>On an acyclic graph the projection returns, given enough fuel.\<close>

lemma build_terminates:
  assumes "acyclic (childEdges actions ctx)"
  shows "\<exists>fuel panels. buildEuiContextMenuPanels fuel p actions ctx = Some panels"
proof -
  have "finite (childEdges actions ctx)"
    unfolding childEdges_def by (rule finite_set)
  then have "wf ((childEdges actions ctx)\<inverse>)"
    using assms by (rule finite_acyclic_wf_converse)
  then have "\<forall>p. panel_id p = i \<longrightarrow>
      (\<exists>fuel panels. buildEuiContextMenuPanels fuel p actions ctx = Some panels)" for i
  proof (induction i rule: wf_induct_rule)
    case (less i)
    show ?case
    proof (intro allI impI)
      fix p :: "('a, 'b) DashboardContextMenuPanel"
      assume p: "panel_id p = i"
      have "\<forall>c \<in> set (visibleChildPanels i actions ctx).
              \<exists>fuel panels. buildEuiContextMenuPanels fuel c actions ctx = Some panels"
      proof
        fix c assume "c \<in> set (visibleChildPanels i actions ctx)"
        then have "(panel_id c, i) \<in> (childEdges actions ctx)\<inverse>"
          by (auto simp: childEdges_visibleChildPanels)
        from less.IH[OF this]
        show "\<exists>fuel panels. buildEuiContextMenuPanels fuel c actions ctx = Some panels"
          by simp
      qed
      from uniform_fuel[OF this] obtain fuel where
        fuel: "\<forall>c \<in> set (visibleChildPanels i actions ctx).
                 \<exists>panels. buildEuiContextMenuPanels fuel c actions ctx = Some panels"
        by blast
      have "None \<notin> set (map (\<lambda>child. buildEuiContextMenuPanels fuel child actions ctx)
                              (visibleChildPanels i actions ctx))"
        using fuel by auto
      then obtain subtrees where
        "those (map (\<lambda>child. buildEuiContextMenuPanels fuel child actions ctx)
                    (visibleChildPanels i actions ctx)) = Some subtrees"
        using those_eq_None by (metis option.exhaust)
      then have "buildEuiContextMenuPanels (Suc fuel) p actions ctx
                   = Some (rootDescriptor p actions ctx # concat subtrees)"
        unfolding build_Suc_char by (simp add: p)
      then show "\<exists>fuel panels. buildEuiContextMenuPanels fuel p actions ctx = Some panels"
        by blast
    qed
  qed
  then show ?thesis by blast
qed

lemma cycle_successor:
  assumes "(a, q) \<in> r\<^sup>*" and "(q, q) \<in> r\<^sup>+"
  shows "\<exists>b. (a, b) \<in> r \<and> (b, q) \<in> r\<^sup>*"
proof (cases "a = q")
  case True
  with assms(2) show ?thesis by (auto dest: tranclD)
next
  case False
  with assms(1) show ?thesis by (auto elim: converse_rtranclE)
qed

text \<open>From a panel that reaches a cycle the projection never returns, whatever the fuel.\<close>

lemma build_diverges:
  assumes "(panel_id p, q) \<in> (childEdges actions ctx)\<^sup>*"
    and "(q, q) \<in> (childEdges actions ctx)\<^sup>+"
  shows "buildEuiContextMenuPanels fuel p actions ctx = None"
  using assms(1)
proof (induction fuel arbitrary: p)
  case 0
  show ?case by simp
next
  case (Suc fuel)
  from cycle_successor[OF Suc.prems assms(2)] obtain b where
    b: "(panel_id p, b) \<in> childEdges actions ctx" "(b, q) \<in> (childEdges actions ctx)\<^sup>*"
    by blast
  then obtain c where c: "c \<in> set (visibleChildPanels (panel_id p) actions ctx)" "panel_id c = b"
    by (auto simp: childEdges_visibleChildPanels)
  then have "buildEuiContextMenuPanels fuel c actions ctx = None"
    using Suc.IH b(2) by simp
  then have "None \<in> set (map (\<lambda>child. buildEuiContextMenuPanels fuel child actions ctx)
                              (visibleChildPanels (panel_id p) actions ctx))"
    using c(1) by force
  then show ?case
    unfolding build_Suc_char by (simp add: those_eq_None[THEN iffD2])
qed

lemma concat_map_filter_irrelevant:
  assumes "\<forall>a \<in> set l. \<not> keep a \<longrightarrow> g a = []"
  shows "concat (map g (filter keep l)) = concat (map g l)"
  using assms by (induction l) auto

subsection \<open>Invisible actions\<close>

text \<open>
  Claim C6.  An action whose \<open>isVisible\<close> returns false contributes nothing to the
  projection: removing any set of invisible actions from the action list (whether or
  not they declare a child panel) leaves the result of \<open>buildEuiContextMenuPanels\<close>
  as it is, for every panel, action list, context and fuel.
\<close>

theorem invisible_actions_contribute_nothing:
  assumes "\<forall>a \<in> set actions. \<not> keep a \<longrightarrow> \<not> isVisible a ctx"
  shows "buildEuiContextMenuPanels fuel p (filter keep actions) ctx
       = buildEuiContextMenuPanels fuel p actions ctx"
proof (induction fuel arbitrary: p)
  case 0
  show ?case by simp
next
  case (Suc fuel)
  have vis: "filter (\<lambda>a. isVisible a ctx) (getActionsForPanel pid (filter keep actions))
           = filter (\<lambda>a. isVisible a ctx) (getActionsForPanel pid actions)" for pid
    using assms unfolding getActionsForPanel_def filter_filter
    by (intro filter_cong) auto
  have root: "rootDescriptor p (filter keep actions) ctx = rootDescriptor p actions ctx"
    by (simp add: rootDescriptor_def vis)
  have comm: "getActionsForPanel pid (filter keep actions)
            = filter keep (getActionsForPanel pid actions)" for pid
    unfolding getActionsForPanel_def filter_filter by (intro filter_cong) auto
  have kids: "visibleChildPanels pid (filter keep actions) ctx
            = visibleChildPanels pid actions ctx" for pid
    unfolding visibleChildPanels_def declaredChildPanels_def comm
    by (rule concat_map_filter_irrelevant)
       (use assms in \<open>auto simp: getActionsForPanel_def split: option.splits\<close>)
  show ?case
    unfolding build_Suc_char by (simp add: root kids Suc.IH)
qed

theorem invisible_actions_contribute_nothing_witness:
  "buildEuiContextMenuPanels 2 main_panel
       (filter (\<lambda>a. action_id a \<noteq> ''hidden'') hidden_actions) ()
     = buildEuiContextMenuPanels 2 main_panel hidden_actions ()
   \<and> map_option (map (\<lambda>panel. (eui_id panel, map item_name (eui_items panel))))
        (buildEuiContextMenuPanels 2 main_panel hidden_actions ())
     = Some [(''mainMenu'', [''edit''])]"
proof -
  have invisible: "\<forall>a \<in> set hidden_actions. \<not> action_id a \<noteq> ''hidden'' \<longrightarrow> \<not> isVisible a ()"
    by (simp add: menu_sample_defs)
  have "map_option (map (\<lambda>panel. (eui_id panel, map item_name (eui_items panel))))
        (buildEuiContextMenuPanels (Suc (Suc 0)) main_panel hidden_actions ())
     = Some [(''mainMenu'', [''edit''])]"
    by (simp add: menu_sample_defs getActionsForPanel_def convertPanelActionToContextMenuItem_def)
  then show ?thesis
    using invisible_actions_contribute_nothing
            [OF invisible, of 2 main_panel]
    by (simp add: numeral_2_eq_2)
qed

lemma acyclic_no_edges: "acyclic {}"
  by (simp add: acyclic_def)

subsection \<open>The order of the output\<close>



subsection \<open>Termination\<close>

text \<open>
  Claim C8.  If the child-panel reachability graph is acyclic, \<open>buildEuiContextMenuPanels\<close>
  returns: some amount of fuel is enough.  If the graph has a cycle that can be reached
  from the panel the projection starts at, the call never returns: no amount of fuel
  is enough.
\<close>

theorem projection_returns_unless_cycle_reachable:
  "(acyclic (childEdges actions ctx)
      \<longrightarrow> (\<exists>fuel panels. buildEuiContextMenuPanels fuel p actions ctx = Some panels))
   \<and> ((\<exists>q. (panel_id p, q) \<in> (childEdges actions ctx)\<^sup>* \<and> (q, q) \<in> (childEdges actions ctx)\<^sup>+)
      \<longrightarrow> (\<forall>fuel. buildEuiContextMenuPanels fuel p actions ctx = None))"
proof (intro conjI impI allI)
  assume "acyclic (childEdges actions ctx)"
  then show "\<exists>fuel panels. buildEuiContextMenuPanels fuel p actions ctx = Some panels"
    by (rule build_terminates)
next
  fix fuel
  assume "\<exists>q. (panel_id p, q) \<in> (childEdges actions ctx)\<^sup>* \<and> (q, q) \<in> (childEdges actions ctx)\<^sup>+"
  then obtain q where "(panel_id p, q) \<in> (childEdges actions ctx)\<^sup>*"
    and "(q, q) \<in> (childEdges actions ctx)\<^sup>+"
    by blast
  then show "buildEuiContextMenuPanels fuel p actions ctx = None"
    by (rule build_diverges)
qed

theorem projection_returns_unless_cycle_reachable_witness:
  "acyclic (childEdges twice_actions ())
   \<and> (\<exists>fuel panels. buildEuiContextMenuPanels fuel main_panel twice_actions () = Some panels)
   \<and> (panel_id main_panel, ''customize'') \<in> (childEdges cyclic_actions ())\<^sup>*
   \<and> (''customize'', ''customize'') \<in> (childEdges cyclic_actions ())\<^sup>+
   \<and> (\<forall>fuel. buildEuiContextMenuPanels fuel main_panel cyclic_actions () = None)"
proof -
  have "childEdges twice_actions () = {(''mainMenu'', ''customize'')}"
    by (auto simp: childEdges_def menu_sample_defs)
  then have acyc: "acyclic (childEdges twice_actions ())"
    by (simp add: acyclic_no_edges)
  have edges: "childEdges cyclic_actions ()
             = {(''mainMenu'', ''customize''), (''customize'', ''mainMenu'')}"
    by (auto simp: childEdges_def menu_sample_defs)
  have reach: "(panel_id main_panel, ''customize'') \<in> (childEdges cyclic_actions ())\<^sup>*"
    unfolding edges by (simp add: main_panel_def r_into_rtrancl)
  have "(''customize'', ''mainMenu'') \<in> (childEdges cyclic_actions ())\<^sup>+"
    unfolding edges by (simp add: r_into_trancl')
  moreover have "(''mainMenu'', ''customize'') \<in> childEdges cyclic_actions ()"
    unfolding edges by simp
  ultimately have cycle: "(''customize'', ''customize'') \<in> (childEdges cyclic_actions ())\<^sup>+"
    by (rule trancl_into_trancl)
  show ?thesis
    using acyc reach cycle
      projection_returns_unless_cycle_reachable [of twice_actions "()" main_panel]
      projection_returns_unless_cycle_reachable [of cyclic_actions "()" main_panel]
    by blast
qed

section \<open>Properties of the copies\<close>

subsection \<open>Regions of the heap\<close>



lemma props_known_Cons [simp]:
  "props_known M ((name, v) # ps) \<longleftrightarrow> known M v \<and> props_known M ps"
  by (simp add: props_known_def)

lemma props_known_Nil [simp]: "props_known M []"
  by (simp add: props_known_def)







subsection \<open>What the library functions create\<close>





subsection \<open>Mutations by a caller\<close>



subsection \<open>What a reader sees\<close>






subsection \<open>The copies are the caller's, the originals the client's\<close>




subsection \<open>Deep copies\<close>




end
